theory Spec2Isabelle
  imports Complex_Main "HOL-Library.Multiset"
begin

section \<open>JavaScript numbers\<close>

text \<open>
  A JavaScript number is an IEEE double. The model keeps the three special values the
  code can meet (\<open>NaN\<close>, \<open>+Infinity\<close>, \<open>-Infinity\<close>) and represents every finite value by an
  exact rational: rounding, overflow of finite arithmetic and the sign of zero are not
  modelled. The operations below follow the ECMAScript definitions of \<open>+\<close>, \<open>-\<close>, \<open>/\<close>,
  \<open>>\<close> and of truthiness on that domain.
\<close>

datatype jsnum = NaN | PInf | NInf | Fin rat

fun js_neg :: "jsnum \<Rightarrow> jsnum" where
  "js_neg NaN = NaN"
| "js_neg PInf = NInf"
| "js_neg NInf = PInf"
| "js_neg (Fin a) = Fin (- a)"

fun js_add :: "jsnum \<Rightarrow> jsnum \<Rightarrow> jsnum" where
  "js_add (Fin a) (Fin b) = Fin (a + b)"
| "js_add NaN y = NaN"
| "js_add x NaN = NaN"
| "js_add PInf NInf = NaN"
| "js_add NInf PInf = NaN"
| "js_add PInf y = PInf"
| "js_add NInf y = NInf"
| "js_add (Fin a) y = y"

definition js_sub :: "jsnum \<Rightarrow> jsnum \<Rightarrow> jsnum" where
  "js_sub x y = js_add x (js_neg y)"

text \<open>
  Division. A finite value divided by zero gives an infinity of the sign of the dividend
  (the zero counts as positive) and \<open>0 / 0\<close> gives \<open>NaN\<close>: JavaScript never raises here.
\<close>

fun js_div :: "jsnum \<Rightarrow> jsnum \<Rightarrow> jsnum" where
  "js_div (Fin a) (Fin b) =
     (if b = 0 then (if a = 0 then NaN else if 0 < a then PInf else NInf)
      else Fin (a / b))"
| "js_div NaN y = NaN"
| "js_div x NaN = NaN"
| "js_div (Fin a) y = Fin 0"
| "js_div PInf (Fin b) = (if b < 0 then NInf else PInf)"
| "js_div NInf (Fin b) = (if b < 0 then PInf else NInf)"
| "js_div x y = NaN"

text \<open>\<open>x > y\<close>: false as soon as one side is \<open>NaN\<close>.\<close>

fun js_gt :: "jsnum \<Rightarrow> jsnum \<Rightarrow> bool" where
  "js_gt (Fin a) (Fin b) = (b < a)"
| "js_gt NaN y = False"
| "js_gt x NaN = False"
| "js_gt PInf PInf = False"
| "js_gt PInf y = True"
| "js_gt x PInf = False"
| "js_gt NInf y = False"
| "js_gt x NInf = True"

text \<open>\<open>x || 0\<close> on a number: \<open>NaN\<close> and zero are the falsy numbers.\<close>

definition js_or_zero :: "jsnum \<Rightarrow> jsnum" where
  "js_or_zero x = (if x = NaN \<or> x = Fin 0 then Fin 0 else x)"

section \<open>Strings and \<open>parseFloat\<close>\<close>

text \<open>
  A string is a list of code units; the model covers the units below 256. An optional
  field of a row is a \<open>string option\<close>, \<open>None\<close> being \<open>undefined\<close>. The falsy values of
  such a field are \<open>undefined\<close> and the empty string.
\<close>

definition falsy :: "string option \<Rightarrow> bool" where
  "falsy v = (v = None \<or> v = Some [])"

text \<open>
  \<open>parseFloat\<close> is a built-in, modelled from its ECMAScript definition: leading white
  space is removed, the longest prefix that is a \<open>StrDecimalLiteral\<close> is read, and the
  result is \<open>NaN\<close> when there is no such prefix. The literal is an optional sign followed
  by \<open>Infinity\<close>, by digits with an optional fraction, or by a fraction alone, each of the
  last two with an optional exponent.
\<close>

definition is_white_space :: "char \<Rightarrow> bool" where
  "is_white_space c = ((of_char c :: nat) \<in> set [9, 10, 11, 12, 13, 32, 160])"

definition is_digit :: "char \<Rightarrow> bool" where
  "is_digit c = (c \<in> set ''0123456789'')"

definition digits_value :: "string \<Rightarrow> nat" where
  "digits_value ds = foldl (\<lambda>acc c. 10 * acc + (of_char c - 48)) 0 ds"

definition exponent_part :: "string \<Rightarrow> rat" where
  "exponent_part s =
     (case s of
        [] \<Rightarrow> 1
      | e # r \<Rightarrow>
          if e = CHR ''e'' \<or> e = CHR ''E'' then
            (case r of
               [] \<Rightarrow> 1
             | c # r' \<Rightarrow>
                 if c = CHR ''-'' then
                   (let ds = takeWhile is_digit r'
                    in if ds = [] then 1 else 1 / 10 ^ digits_value ds)
                 else
                   (let ds = takeWhile is_digit (if c = CHR ''+'' then r' else r)
                    in if ds = [] then 1 else 10 ^ digits_value ds))
          else 1)"

definition unsigned_decimal :: "string \<Rightarrow> rat option" where
  "unsigned_decimal u =
     (let ip = takeWhile is_digit u; r1 = dropWhile is_digit u
      in case r1 of
           [] \<Rightarrow> if ip = [] then None else Some (of_nat (digits_value ip))
         | c # r \<Rightarrow>
             if c = CHR ''.'' then
               (let fp = takeWhile is_digit r; r2 = dropWhile is_digit r
                in if ip = [] \<and> fp = [] then None
                   else Some ((of_nat (digits_value ip)
                               + of_nat (digits_value fp) / 10 ^ length fp)
                              * exponent_part r2))
             else if ip = [] then None
             else Some (of_nat (digits_value ip) * exponent_part r1))"

definition parseFloat :: "string \<Rightarrow> jsnum" where
  "parseFloat s =
     (let t = dropWhile is_white_space s;
          neg = (take 1 t = ''-'');
          u = (if take 1 t = ''-'' \<or> take 1 t = ''+'' then drop 1 t else t)
      in if take 8 u = ''Infinity'' then (if neg then NInf else PInf)
         else (case unsigned_decimal u of
                 None \<Rightarrow> NaN
               | Some q \<Rightarrow> Fin (if neg then - q else q)))"

text \<open>
  Lines 57-58 and 85-86 of \<open>App.tsx\<close>:
  \<^verbatim>\<open>const amountStr = row.amount ? row.amount.replace(/,/g, '') : "0";
const amount = parseFloat(amountStr) || 0;\<close>
\<close>

definition strip_commas :: "string \<Rightarrow> string" where
  "strip_commas s = filter (\<lambda>c. c \<noteq> CHR '','') s"

definition amountStr :: "string option \<Rightarrow> string" where
  "amountStr a = (case a of None \<Rightarrow> ''0'' | Some s \<Rightarrow> if s = [] then ''0'' else strip_commas s)"

definition parseAmount :: "string option \<Rightarrow> jsnum" where
  "parseAmount a = js_or_zero (parseFloat (amountStr a))"

section \<open>Objects used as dictionaries\<close>

text \<open>
  \<open>actCodeStats\<close> and \<open>baStats\<close> are object literals \<open>{}\<close> indexed by arbitrary strings of
  the input. A map holds the own properties of such an object. Reading \<open>obj[k]\<close> walks the
  prototype chain: a key that is no own property but names a property of
  \<open>Object.prototype\<close> yields that inherited value, a function or (for \<open>__proto__\<close>) the
  prototype object itself, all of them truthy and none of them a number.
\<close>

definition object_prototype_names :: "string list" where
  "object_prototype_names =
     [''constructor'', ''__proto__'', ''hasOwnProperty'', ''isPrototypeOf'',
      ''propertyIsEnumerable'', ''toLocaleString'', ''toString'', ''valueOf'',
      ''__defineGetter__'', ''__defineSetter__'', ''__lookupGetter__'',
      ''__lookupSetter__'']"

datatype 'a property = Own 'a | Inherited | Undefined

definition get_property :: "(string \<rightharpoonup> 'a) \<Rightarrow> string \<Rightarrow> 'a property" where
  "get_property obj k =
     (case obj k of
        Some v \<Rightarrow> Own v
      | None \<Rightarrow> if k \<in> set object_prototype_names then Inherited else Undefined)"

section \<open>Data model (\<open>types.ts\<close>)\<close>

record RawTransaction =
  BA :: "string option"
  monthly :: "string option"
  actCode :: "string option"
  amount :: "string option"

record ActCodeStat =
  totalAmount :: jsnum
  count :: nat
  average :: jsnum

type_synonym ActCodeStats = "string \<rightharpoonup> ActCodeStat"

text \<open>
  A value stored in \<open>baStats\<close> is a count, or the text that \<open>+ 1\<close> produces from an
  inherited function (string concatenation): \<open>NonNumber\<close> stands for such a truthy value
  whose conversion to a number is \<open>NaN\<close>.
\<close>

datatype bavalue = Count nat | NonNumber

type_synonym BAStats = "string \<rightharpoonup> bavalue"

text \<open>
  The fields \<open>id\<close>, \<open>BA\<close>, \<open>monthly\<close>, \<open>actCode\<close> and \<open>amount\<close> of a processed transaction
  carry the prefix \<open>p_\<close>, those of a score result the prefix \<open>r_\<close>.
\<close>

record ProcessedTransaction =
  p_id :: int
  p_BA :: string
  p_monthly :: "string option"
  p_actCode :: string
  p_amount :: jsnum
  baTransactionCount :: bavalue
  actCodeAvgAmount :: jsnum
  deviationFromAvg :: jsnum
  isSuspiciousCandidate :: bool

section \<open>Feature engineering (\<open>processFeatures\<close>, \<open>App.tsx\<close> lines 50-119)\<close>

subsection \<open>First pass\<close>

text \<open>
  One iteration of the first \<open>forEach\<close> (lines 56-73). When \<open>actCodeStats[actCode]\<close> is an
  inherited object the test \<open>!actCodeStats[actCode]\<close> fails, no entry is created, and the two
  \<open>+=\<close> write to that inherited object: the own properties stay as they are.
  \<open>baStats[ba] = (baStats[ba] || 0) + 1\<close> turns an inherited function into text and stores
  it as an own property; under the key \<open>__proto__\<close> the assignment of a text is ignored.
  The writes to an inherited object store \<open>NaN\<close> (\<open>undefined + amount\<close>) under
  \<open>totalAmount\<close> and \<open>count\<close> and never store an \<open>average\<close>; when that object is
  \<open>Object.prototype\<close> the two names become readable through every object, with a falsy
  value, so a row that uses one of them as a key is treated as if the key were undefined.
  No statement of the function throws on rows whose fields are strings or missing, so
  the \<open>catch\<close> branch is not modelled.
\<close>

definition update_actCodeStats :: "ActCodeStats \<Rightarrow> string \<Rightarrow> jsnum \<Rightarrow> ActCodeStats" where
  "update_actCodeStats stats code amt =
     (case get_property stats code of
        Undefined \<Rightarrow>
          stats(code \<mapsto> \<lparr>totalAmount = js_add (Fin 0) amt, count = 0 + 1, average = Fin 0\<rparr>)
      | Own stat \<Rightarrow>
          stats(code \<mapsto> stat\<lparr>totalAmount := js_add (totalAmount stat) amt,
                                count := count stat + 1\<rparr>)
      | Inherited \<Rightarrow> stats)"

definition update_baStats :: "BAStats \<Rightarrow> string \<Rightarrow> BAStats" where
  "update_baStats stats ba =
     (case get_property stats ba of
        Undefined \<Rightarrow> stats(ba \<mapsto> Count (0 + 1))
      | Own (Count n) \<Rightarrow> stats(ba \<mapsto> Count ((if n = 0 then 0 else n) + 1))
      | Own NonNumber \<Rightarrow> stats(ba \<mapsto> NonNumber)
      | Inherited \<Rightarrow> if ba = ''__proto__'' then stats else stats(ba \<mapsto> NonNumber))"

definition skipped :: "RawTransaction \<Rightarrow> bool" where
  "skipped row = (falsy (actCode row) \<or> falsy (BA row))"

definition pass1_row :: "ActCodeStats \<times> BAStats \<Rightarrow> RawTransaction \<Rightarrow> ActCodeStats \<times> BAStats" where
  "pass1_row st row =
     (let amt = parseAmount (amount row)
      in case (actCode row, BA row) of
           (Some code, Some ba) \<Rightarrow>
             if code = [] \<or> ba = [] then st
             else (update_actCodeStats (fst st) code amt, update_baStats (snd st) ba)
         | _ \<Rightarrow> st)"

definition pass1 :: "RawTransaction list \<Rightarrow> ActCodeStats \<times> BAStats" where
  "pass1 data = foldl pass1_row (Map.empty, Map.empty) data"

subsection \<open>Averages\<close>

text \<open>
  Lines 76-79: every own key gets \<open>average = totalAmount / count\<close>. The entries are
  independent of each other, so the order of \<open>Object.keys\<close> does not matter.
\<close>

definition set_average :: "ActCodeStat \<Rightarrow> ActCodeStat" where
  "set_average stat = stat\<lparr>average := js_div (totalAmount stat) (Fin (of_nat (count stat)))\<rparr>"

definition calculate_averages :: "ActCodeStats \<Rightarrow> ActCodeStats" where
  "calculate_averages stats = (\<lambda>code. map_option set_average (stats code))"

subsection \<open>Second pass\<close>

text \<open>
  \<open>actCodeStats[row.actCode]?.average || 0\<close> (line 90): an inherited object has no
  property \<open>average\<close>, so the lookup gives \<open>undefined\<close> and then 0, as for an absent key.
\<close>

definition lookup_average :: "ActCodeStats \<Rightarrow> string \<Rightarrow> jsnum" where
  "lookup_average stats code =
     (case get_property stats code of
        Own stat \<Rightarrow> js_or_zero (average stat)
      | Inherited \<Rightarrow> Fin 0
      | Undefined \<Rightarrow> Fin 0)"

text \<open>\<open>baStats[row.BA] > 100\<close> (line 97) and \<open>baStats[row.BA] || 0\<close> (line 105).\<close>

definition ba_greater :: "bavalue property \<Rightarrow> nat \<Rightarrow> bool" where
  "ba_greater v k = (case v of Own (Count n) \<Rightarrow> k < n | _ \<Rightarrow> False)"

definition ba_or_zero :: "bavalue property \<Rightarrow> bavalue" where
  "ba_or_zero v =
     (case v of
        Own (Count n) \<Rightarrow> Count (if n = 0 then 0 else n)
      | Own NonNumber \<Rightarrow> NonNumber
      | Inherited \<Rightarrow> NonNumber
      | Undefined \<Rightarrow> Count 0)"

definition deviation :: "jsnum \<Rightarrow> jsnum \<Rightarrow> jsnum" where
  "deviation amt avg = (if avg = Fin 0 then Fin 0 else js_div amt avg)"

definition pass2_row ::
  "ActCodeStats \<Rightarrow> BAStats \<Rightarrow> nat \<times> RawTransaction \<Rightarrow> ProcessedTransaction option" where
  "pass2_row actCodeStats baStats ir =
     (let index = fst ir; row = snd ir; amt = parseAmount (amount row)
      in case (actCode row, BA row) of
           (Some code, Some ba) \<Rightarrow>
             if code = [] \<or> ba = [] then None
             else
               (let avg = lookup_average actCodeStats code;
                    dev = deviation amt avg;
                    isSuspicious =
                      (js_gt dev (Fin 3)
                       \<or> (ba_greater (get_property baStats ba) 100 \<and> js_gt dev (Fin 2)))
                in Some \<lparr>p_id = int index, p_BA = ba, p_monthly = monthly row,
                         p_actCode = code, p_amount = amt,
                         baTransactionCount = ba_or_zero (get_property baStats ba),
                         actCodeAvgAmount = avg, deviationFromAvg = dev,
                         isSuspiciousCandidate = isSuspicious\<rparr>)
         | _ \<Rightarrow> None)"

definition processFeatures :: "RawTransaction list \<Rightarrow> ProcessedTransaction list" where
  "processFeatures data =
     (let st = pass1 data;
          actCodeStats = calculate_averages (fst st);
          baStats = snd st
      in List.map_filter (pass2_row actCodeStats baStats) (zip [0..<length data] data))"

section \<open>\<open>Array.prototype.sort\<close>\<close>

text \<open>
  \<open>sort\<close> is stable, and a comparison result that is \<open>NaN\<close> counts as 0. For a
  consistent comparator the sorted order is therefore unique, and a stable insertion sort
  computes it: \<open>x\<close> moves behind \<open>y\<close> exactly when \<open>comparefn(x, y) > 0\<close>. (For an
  inconsistent comparator the order is implementation-defined; the model then shows one
  possible outcome.) The source sorts in place: callers below say which array is replaced.
\<close>

fun insert_by :: "('a \<Rightarrow> 'a \<Rightarrow> jsnum) \<Rightarrow> 'a \<Rightarrow> 'a list \<Rightarrow> 'a list" where
  "insert_by comparefn x [] = [x]"
| "insert_by comparefn x (y # ys) =
     (if js_gt (comparefn x y) (Fin 0) then y # insert_by comparefn x ys else x # y # ys)"

definition js_sort :: "('a \<Rightarrow> 'a \<Rightarrow> jsnum) \<Rightarrow> 'a list \<Rightarrow> 'a list" where
  "js_sort comparefn xs = foldr (insert_by comparefn) xs []"

section \<open>Scorer stage (\<open>analyzeFraudWithGemini\<close>)\<close>

text \<open>
  A score result is an element of the array that \<open>JSON.parse\<close> returns (line 65); the
  array is cast, not validated, and the response schema requires no field. A
  \<open>fraudScore\<close> that is present is a JSON number, hence finite; \<open>None\<close> is a result
  without \<open>fraudScore\<close>, which reads as \<open>undefined\<close> and converts to \<open>NaN\<close>.
\<close>

record AIAnalysisResult =
  r_id :: int
  r_fraudScore :: "rat option"
  r_reason :: string

definition score_number :: "rat option \<Rightarrow> jsnum" where
  "score_number v = (case v of None \<Rightarrow> NaN | Some q \<Rightarrow> Fin q)"

text \<open>Lines 9-12: \<open>filter\<close> builds a new array, which is then sorted and cut.\<close>

definition by_deviation :: "ProcessedTransaction \<Rightarrow> ProcessedTransaction \<Rightarrow> jsnum" where
  "by_deviation a b = js_sub (deviationFromAvg b) (deviationFromAvg a)"

definition select_candidates :: "ProcessedTransaction list \<Rightarrow> ProcessedTransaction list" where
  "select_candidates transactions =
     take 30 (js_sort by_deviation (filter isSuspiciousCandidate transactions))"

text \<open>The object sent for each candidate (lines 34-41).\<close>

record CandidateSummary =
  c_id :: int
  c_BA :: string
  c_actCode :: string
  c_amount :: jsnum
  avgAmountForCode :: jsnum
  deviationRatio :: jsnum

definition summary :: "ProcessedTransaction \<Rightarrow> CandidateSummary" where
  "summary c = \<lparr>c_id = p_id c, c_BA = p_BA c, c_actCode = p_actCode c, c_amount = p_amount c,
                avgAmountForCode = actCodeAvgAmount c, deviationRatio = deviationFromAvg c\<rparr>"

text \<open>
  The external service is a parameter: given the request it rejects the call, answers
  without text, answers with text that \<open>JSON.parse\<close> refuses, or answers with results.
\<close>

datatype reply = Rejected | NoText | BadJson | Results "AIAnalysisResult list"

datatype scorer_error = ApiKeyNotFound | GeminiApiError | JsonSyntaxError

text \<open>
  The function returns its outcome (\<open>Inl\<close> for a thrown error) together with the list of
  requests that were sent to the service.
\<close>

definition analyzeFraudWithGemini ::
  "string option \<Rightarrow> (CandidateSummary list \<Rightarrow> reply) \<Rightarrow> ProcessedTransaction list
     \<Rightarrow> (scorer_error + AIAnalysisResult list) \<times> CandidateSummary list list" where
  "analyzeFraudWithGemini api_key generateContent transactions =
     (let candidates = select_candidates transactions
      in if length candidates = 0 then (Inr [], [])
         else if falsy api_key then (Inl ApiKeyNotFound, [])
         else
           (let request = map summary candidates
            in case generateContent request of
                 Rejected \<Rightarrow> (Inl GeminiApiError, [request])
               | BadJson \<Rightarrow> (Inl JsonSyntaxError, [request])
               | NoText \<Rightarrow> (Inr [], [request])
               | Results results \<Rightarrow> (Inr results, [request])))"

section \<open>Derived data of the component (\<open>App.tsx\<close> lines 161-186)\<close>

text \<open>
  \<open>processedData\<close> and \<open>analysisResults\<close> are the arrays held in the component state. Both
  memoised computations call \<open>sort\<close> on the state array itself, so each returns its value
  together with the state it leaves behind.
\<close>

record AppState =
  processedData :: "ProcessedTransaction list"
  analysisResults :: "AIAnalysisResult list"

record FinalRecord = ProcessedTransaction +
  fraudScore :: "rat option"
  reason :: string

text \<open>\<open>(a, b) => b.fraudScore - a.fraudScore\<close> (line 165).\<close>

definition by_fraudScore :: "AIAnalysisResult \<Rightarrow> AIAnalysisResult \<Rightarrow> jsnum" where
  "by_fraudScore a b = js_sub (score_number (r_fraudScore b)) (score_number (r_fraudScore a))"

text \<open>\<open>{ ...original, ...res }\<close>: a new object, \<open>id\<close> taken from \<open>res\<close>.\<close>

definition merge_record :: "ProcessedTransaction \<Rightarrow> AIAnalysisResult \<Rightarrow> FinalRecord" where
  "merge_record original res =
     \<lparr>p_id = r_id res, p_BA = p_BA original, p_monthly = p_monthly original,
      p_actCode = p_actCode original, p_amount = p_amount original,
      baTransactionCount = baTransactionCount original,
      actCodeAvgAmount = actCodeAvgAmount original,
      deviationFromAvg = deviationFromAvg original,
      isSuspiciousCandidate = isSuspiciousCandidate original,
      fraudScore = r_fraudScore res, reason = r_reason res\<rparr>"

definition merge_result :: "ProcessedTransaction list \<Rightarrow> AIAnalysisResult \<Rightarrow> FinalRecord option" where
  "merge_result processed res =
     (case find (\<lambda>p. p_id p = r_id res) processed of
        None \<Rightarrow> None
      | Some original \<Rightarrow> Some (merge_record original res))"

definition topRiskyTransactions :: "AppState \<Rightarrow> FinalRecord list \<times> AppState" where
  "topRiskyTransactions s =
     (if length (analysisResults s) = 0 then ([], s)
      else
        (let sorted = js_sort by_fraudScore (analysisResults s);
             s' = s\<lparr>analysisResults := sorted\<rparr>
         in (List.map_filter (merge_result (processedData s')) sorted, s')))"

text \<open>A point of the chart; its fields carry the prefix \<open>sp_\<close>.\<close>

record ScatterPoint =
  sp_name :: string
  sp_x :: string
  sp_y :: jsnum
  sp_z :: jsnum
  sp_risk :: string

definition by_amount :: "ProcessedTransaction \<Rightarrow> ProcessedTransaction \<Rightarrow> jsnum" where
  "by_amount a b = js_sub (p_amount b) (p_amount a)"

definition scatter_point :: "ProcessedTransaction \<Rightarrow> ScatterPoint" where
  "scatter_point d = \<lparr>sp_name = p_BA d, sp_x = p_actCode d, sp_y = p_amount d,
                      sp_z = deviationFromAvg d,
                      sp_risk = (if isSuspiciousCandidate d then ''High'' else ''Normal'')\<rparr>"

definition scatterData :: "AppState \<Rightarrow> ScatterPoint list \<times> AppState" where
  "scatterData s =
     (let sorted = js_sort by_amount (processedData s);
          s' = s\<lparr>processedData := sorted\<rparr>
      in (map scatter_point (take 500 sorted), s'))"

section \<open>Notions used in the statements\<close>

text \<open>
  \<open>value > k\<close> for the value stored in the field \<open>baTransactionCount\<close>: a value that is
  not a number converts to \<open>NaN\<close>, and the comparison is false.
\<close>

definition field_greater :: "bavalue \<Rightarrow> nat \<Rightarrow> bool" where
  "field_greater v k = (case v of Count n \<Rightarrow> k < n | NonNumber \<Rightarrow> False)"

text \<open>Every entry of the aggregate table has been counted at least once.\<close>

definition counts_positive :: "ActCodeStats \<Rightarrow> bool" where
  "counts_positive stats = (\<forall>code stat. stats code = Some stat \<longrightarrow> 0 < count stat)"

text \<open>
  Sample input: five rows, the second without activity code, the last two with an empty
  and an unparsable amount.
\<close>

definition sample_rows :: "RawTransaction list" where
  "sample_rows =
     [\<lparr>BA = Some ''A'', monthly = Some ''2024-01'', actCode = Some ''X'', amount = Some ''3''\<rparr>,
      \<lparr>BA = Some ''A'', monthly = Some ''2024-01'', actCode = None, amount = Some ''7''\<rparr>,
      \<lparr>BA = Some ''A'', monthly = Some ''2024-02'', actCode = Some ''X'', amount = Some ''0''\<rparr>,
      \<lparr>BA = Some ''B'', monthly = Some ''2024-02'', actCode = Some ''X'', amount = Some []\<rparr>,
      \<lparr>BA = Some ''B'', monthly = None, actCode = Some ''W'', amount = Some ''n/a''\<rparr>]"

text \<open>
  Sample input at the thresholds: in each category the average is 1, so the first row of
  the category has deviation 3, 2 and 4 respectively.
\<close>

definition raw_row :: "string \<Rightarrow> string \<Rightarrow> string \<Rightarrow> RawTransaction" where
  "raw_row ba code amt = \<lparr>BA = Some ba, monthly = None, actCode = Some code, amount = Some amt\<rparr>"

definition boundary_rows :: "RawTransaction list" where
  "boundary_rows =
     [raw_row ''A'' ''X'' ''3'', raw_row ''A'' ''X'' ''0'', raw_row ''A'' ''X'' ''0'',
      raw_row ''A'' ''Y'' ''2'', raw_row ''A'' ''Y'' ''0'',
      raw_row ''A'' ''Z'' ''4'', raw_row ''A'' ''Z'' ''0'', raw_row ''A'' ''Z'' ''0'', raw_row ''A'' ''Z'' ''0'']"

text \<open>
  Descending order of a list by a numeric key: no element is followed, anywhere later in
  the list, by an element with a greater key.
\<close>

definition descending :: "('a \<Rightarrow> jsnum) \<Rightarrow> 'a list \<Rightarrow> bool" where
  "descending key xs = sorted_wrt (\<lambda>a b. \<not> js_gt (key b) (key a)) xs"

text \<open>
  Sample processed records: record \<open>i\<close> of \<open>many_candidates\<close> has deviation \<open>i\<close> and is
  flagged when \<open>i > 3\<close>, which makes 36 candidates out of 40 records.
\<close>

definition candidate :: "int \<Rightarrow> rat \<Rightarrow> bool \<Rightarrow> ProcessedTransaction" where
  "candidate i d flag =
     \<lparr>p_id = i, p_BA = ''A'', p_monthly = None, p_actCode = ''X'', p_amount = Fin d,
      baTransactionCount = Count 1, actCodeAvgAmount = Fin 1, deviationFromAvg = Fin d,
      isSuspiciousCandidate = flag\<rparr>"

definition many_candidates :: "ProcessedTransaction list" where
  "many_candidates = map (\<lambda>i. candidate (int i) (of_nat i) (3 < i)) [0..<40]"

text \<open>A score result refers to a processed record when some record has its id.\<close>

definition matched :: "ProcessedTransaction list \<Rightarrow> AIAnalysisResult \<Rightarrow> bool" where
  "matched processed res = (r_id res \<in> p_id ` set processed)"

text \<open>
  Sample states. In \<open>merge_state\<close> ten records are processed and the service answers for
  the ids 3, 7 and 12, in that order; in \<open>duplicate_state\<close> it answers twice for id 0.
\<close>

definition score :: "int \<Rightarrow> rat \<Rightarrow> AIAnalysisResult" where
  "score i sc = \<lparr>r_id = i, r_fraudScore = Some sc, r_reason = ''high deviation''\<rparr>"

definition unscored :: "int \<Rightarrow> AIAnalysisResult" where
  "unscored i = \<lparr>r_id = i, r_fraudScore = None, r_reason = ''high deviation''\<rparr>"

definition duplicate_state :: AppState where
  "duplicate_state =
     \<lparr>processedData = [candidate 0 5 True],
      analysisResults = [score 0 (1 / 2), score 0 (9 / 10)]\<rparr>"

definition merge_state :: AppState where
  "merge_state =
     \<lparr>processedData = map (\<lambda>i. candidate (int i) (of_nat i) True) [0..<10],
      analysisResults = [score 3 (1 / 5), score 7 (9 / 10), score 12 (1 / 2)]\<rparr>"

text \<open>In \<open>unscored_state\<close> the answer for id 7 carries no \<open>fraudScore\<close>.\<close>

definition unscored_state :: AppState where
  "unscored_state =
     \<lparr>processedData = map (\<lambda>i. candidate (int i) (of_nat i) True) [0..<10],
      analysisResults = [score 3 (1 / 5), unscored 7, score 5 (9 / 10)]\<rparr>"

text \<open>
  Two rows whose activity code, respectively business area, is the name of a property
  that every object inherits.
\<close>

definition inherited_rows :: "RawTransaction list" where
  "inherited_rows = [raw_row ''A'' ''constructor'' ''5'', raw_row ''toString'' ''X'' ''5'']"

text \<open>
  The values stored in \<open>baStats\<close> under names that are not inherited are positive counts.
\<close>

definition own_counts :: "BAStats \<Rightarrow> bool" where
  "own_counts stats =
     (\<forall>k v. stats k = Some v \<longrightarrow> k \<notin> set object_prototype_names \<longrightarrow> (\<exists>n. v = Count n \<and> 0 < n))"

section \<open>Amount parsing\<close>

lemma js_or_zero_not_NaN: "js_or_zero v \<noteq> NaN"
  by (simp add: js_or_zero_def)

lemma js_or_zero_id: "v \<noteq> NaN \<Longrightarrow> js_or_zero v = v"
  by (auto simp: js_or_zero_def)

lemma unsigned_decimal_no_prefix:
  assumes "case u of [] \<Rightarrow> True | c # r \<Rightarrow> c \<notin> set ''.0123456789''"
  shows "unsigned_decimal u = None"
proof (cases u)
  case Nil
  then show ?thesis by (simp add: unsigned_decimal_def)
next
  case (Cons c r)
  with assms have nd: "\<not> is_digit c" and dot: "c \<noteq> CHR ''.''"
    by (auto simp: is_digit_def)
  then show ?thesis using Cons by (simp add: unsigned_decimal_def)
qed

lemma parseFloat_no_prefix:
  assumes "case dropWhile is_white_space s of [] \<Rightarrow> True | c # r \<Rightarrow> c \<notin> set ''+-.0123456789I''"
  shows "parseFloat s = NaN"
proof (cases "dropWhile is_white_space s")
  case Nil
  then show ?thesis
    by (simp add: parseFloat_def unsigned_decimal_def del: dropWhile_eq_Nil_conv)
next
  case (Cons c r)
  with assms have c: "c \<notin> set ''+-.0123456789I''" by simp
  then have "take 1 (c # r) \<noteq> ''-''" "take 1 (c # r) \<noteq> ''+''" "take 8 (c # r) \<noteq> ''Infinity''"
    by auto
  moreover have "unsigned_decimal (c # r) = None"
    using c by (intro unsigned_decimal_no_prefix) auto
  ultimately show ?thesis using Cons by (simp add: parseFloat_def)
qed

text \<open>
  Claim C6. Amount parsing is total and never raises: the model has no error branch and
  its result is always a number other than \<open>NaN\<close>. A missing or empty field gives 0. Every
  comma is removed from the text, and the result is what \<open>parseFloat\<close> reads from the
  remainder, or 0 when \<open>parseFloat\<close> reads no number there; in particular the result is 0
  when the remainder, after leading white space, is empty or starts with a character
  that begins no decimal literal.
\<close>

theorem parseAmount_total:
  "parseAmount a \<noteq> NaN
   \<and> parseAmount None = Fin 0
   \<and> parseAmount (Some []) = Fin 0
   \<and> amountStr (Some s) = (if s = [] then ''0'' else filter (\<lambda>c. c \<noteq> CHR '','') s)
   \<and> CHR '','' \<notin> set (amountStr a)
   \<and> (parseFloat (amountStr a) \<noteq> NaN \<longrightarrow> parseAmount a = parseFloat (amountStr a))
   \<and> (parseFloat (amountStr a) = NaN \<longrightarrow> parseAmount a = Fin 0)
   \<and> ((case dropWhile is_white_space (amountStr a) of [] \<Rightarrow> True
        | c # r \<Rightarrow> c \<notin> set ''+-.0123456789I'') \<longrightarrow> parseAmount a = Fin 0)"
proof -
  have z: "parseFloat ''0'' = Fin 0" by code_simp
  have 1: "parseAmount a \<noteq> NaN" by (simp add: parseAmount_def js_or_zero_not_NaN)
  have 2: "parseAmount None = Fin 0" "parseAmount (Some []) = Fin 0"
    by (simp_all add: parseAmount_def amountStr_def z js_or_zero_def)
  have 3: "amountStr (Some s) = (if s = [] then ''0'' else filter (\<lambda>c. c \<noteq> CHR '','') s)"
    by (simp add: amountStr_def strip_commas_def)
  have 4: "CHR '','' \<notin> set (amountStr a)"
    by (auto simp: amountStr_def strip_commas_def split: option.splits)
  have 5: "parseFloat (amountStr a) \<noteq> NaN \<longrightarrow> parseAmount a = parseFloat (amountStr a)"
    by (simp add: parseAmount_def js_or_zero_id)
  have 6: "parseFloat (amountStr a) = NaN \<longrightarrow> parseAmount a = Fin 0"
    by (simp add: parseAmount_def js_or_zero_def)
  have 7: "(case dropWhile is_white_space (amountStr a) of [] \<Rightarrow> True
        | c # r \<Rightarrow> c \<notin> set ''+-.0123456789I'') \<longrightarrow> parseAmount a = Fin 0"
    using parseFloat_no_prefix [of "amountStr a"] 6 by blast
  from 1 2 3 4 5 6 7 show ?thesis by blast
qed

text \<open>The grouped amount \<open>1,234.5\<close> and the unparsable text \<open>n/a\<close>.\<close>

theorem parseAmount_total_witness:
  "parseFloat (amountStr (Some ''1,234.5'')) \<noteq> NaN
   \<and> parseAmount (Some ''1,234.5'') = Fin (2469 / 2)
   \<and> parseFloat (amountStr (Some ''n/a'')) = NaN
   \<and> parseAmount (Some ''n/a'') = Fin 0"
proof -
  have a: "parseFloat (amountStr (Some ''1,234.5'')) = Fin (2469 / 2)" by code_simp
  have b: "parseFloat (amountStr (Some ''n/a'')) = NaN" by code_simp
  show ?thesis
    using parseAmount_total [of "Some ''1,234.5''" "[]"] parseAmount_total [of "Some ''n/a''" "[]"] a b
    by simp
qed

section \<open>The second pass, row by row\<close>

lemma pass2_row_None_iff: "pass2_row acs bas (i, row) = None \<longleftrightarrow> skipped row"
  by (auto simp: pass2_row_def skipped_def falsy_def Let_def split: option.splits)

lemma pass2_row_SomeD:
  assumes "pass2_row acs bas (i, row) = Some r"
  shows "p_id r = int i"
    and "actCode row = Some (p_actCode r)"
    and "BA row = Some (p_BA r)"
    and "p_monthly r = monthly row"
    and "p_amount r = parseAmount (amount row)"
    and "actCodeAvgAmount r = lookup_average acs (p_actCode r)"
    and "deviationFromAvg r = deviation (p_amount r) (actCodeAvgAmount r)"
    and "baTransactionCount r = ba_or_zero (get_property bas (p_BA r))"
    and "isSuspiciousCandidate r =
           (js_gt (deviationFromAvg r) (Fin 3)
            \<or> (ba_greater (get_property bas (p_BA r)) 100 \<and> js_gt (deviationFromAvg r) (Fin 2)))"
    and "\<not> skipped row"
  using assms
  by (auto simp: pass2_row_def skipped_def falsy_def Let_def split: option.splits if_splits)

lemma pass2_row_Some_iff: "(\<exists>r. pass2_row acs bas (i, row) = Some r) \<longleftrightarrow> \<not> skipped row"
  using pass2_row_None_iff [of acs bas i row] by auto

lemma zip_upt_conv: "zip [0..<length xs] xs = map (\<lambda>i. (i, xs ! i)) [0..<length xs]"
  by (rule nth_equalityI) auto

lemma processFeatures_conv:
  "processFeatures data =
     map (\<lambda>i. the (pass2_row (calculate_averages (fst (pass1 data))) (snd (pass1 data)) (i, data ! i)))
       (filter (\<lambda>i. \<not> skipped (data ! i)) [0..<length data])"
  by (simp add: processFeatures_def Let_def zip_upt_conv map_filter_def filter_map o_def
      pass2_row_Some_iff)

lemma processFeatures_memD:
  assumes "r \<in> set (processFeatures data)"
  shows "\<exists>i < length data. pass2_row (calculate_averages (fst (pass1 data))) (snd (pass1 data)) (i, data ! i) = Some r"
proof -
  from assms obtain i where i: "i < length data" "\<not> skipped (data ! i)"
    and r: "r = the (pass2_row (calculate_averages (fst (pass1 data))) (snd (pass1 data)) (i, data ! i))"
    by (auto simp: processFeatures_conv)
  from i(2) have "pass2_row (calculate_averages (fst (pass1 data))) (snd (pass1 data)) (i, data ! i) \<noteq> None"
    by (simp add: pass2_row_None_iff)
  with r i(1) show ?thesis by auto
qed

lemma sample_rows_eval:
  "processFeatures sample_rows =
     [\<lparr>p_id = 0, p_BA = ''A'', p_monthly = Some ''2024-01'', p_actCode = ''X'', p_amount = Fin 3,
       baTransactionCount = Count 2, actCodeAvgAmount = Fin 1, deviationFromAvg = Fin 3,
       isSuspiciousCandidate = False\<rparr>,
      \<lparr>p_id = 2, p_BA = ''A'', p_monthly = Some ''2024-02'', p_actCode = ''X'', p_amount = Fin 0,
       baTransactionCount = Count 2, actCodeAvgAmount = Fin 1, deviationFromAvg = Fin 0,
       isSuspiciousCandidate = False\<rparr>,
      \<lparr>p_id = 3, p_BA = ''B'', p_monthly = Some ''2024-02'', p_actCode = ''X'', p_amount = Fin 0,
       baTransactionCount = Count 2, actCodeAvgAmount = Fin 1, deviationFromAvg = Fin 0,
       isSuspiciousCandidate = False\<rparr>,
      \<lparr>p_id = 4, p_BA = ''B'', p_monthly = None, p_actCode = ''W'', p_amount = Fin 0,
       baTransactionCount = Count 2, actCodeAvgAmount = Fin 0, deviationFromAvg = Fin 0,
       isSuspiciousCandidate = False\<rparr>]"
  unfolding sample_rows_def by code_simp

lemma boundary_rows_eval:
  "map (\<lambda>r. (p_id r, baTransactionCount r, deviationFromAvg r, isSuspiciousCandidate r))
     (processFeatures boundary_rows) =
     [(0, Count 9, Fin 3, False), (1, Count 9, Fin 0, False), (2, Count 9, Fin 0, False),
      (3, Count 9, Fin 2, False), (4, Count 9, Fin 0, False),
      (5, Count 9, Fin 4, True), (6, Count 9, Fin 0, False), (7, Count 9, Fin 0, False),
      (8, Count 9, Fin 0, False)]"
  unfolding boundary_rows_def raw_row_def by code_simp

section \<open>Identifiers\<close>

text \<open>
  Claim C2. The ids of the processed records are, in order, the zero-based positions of
  the rows of the raw sequence that are not skipped: positions of skipped rows are absent
  and nothing is renumbered. Each record carries the fields of the row at its id.
\<close>

theorem processFeatures_id_is_index:
  "map p_id (processFeatures data)
     = map int (filter (\<lambda>i. \<not> skipped (data ! i)) [0..<length data])
   \<and> (\<forall>r \<in> set (processFeatures data).
         0 \<le> p_id r \<and> nat (p_id r) < length data
         \<and> \<not> skipped (data ! nat (p_id r))
         \<and> actCode (data ! nat (p_id r)) = Some (p_actCode r)
         \<and> BA (data ! nat (p_id r)) = Some (p_BA r)
         \<and> monthly (data ! nat (p_id r)) = p_monthly r
         \<and> parseAmount (amount (data ! nat (p_id r))) = p_amount r)"
proof
  let ?f = "pass2_row (calculate_averages (fst (pass1 data))) (snd (pass1 data))"
  have "p_id (the (?f (i, data ! i))) = int i" if "\<not> skipped (data ! i)" for i
  proof -
    from that obtain r where "?f (i, data ! i) = Some r"
      using pass2_row_None_iff [of _ _ i "data ! i"] by fastforce
    then show ?thesis by (simp add: pass2_row_SomeD(1))
  qed
  then show "map p_id (processFeatures data)
     = map int (filter (\<lambda>i. \<not> skipped (data ! i)) [0..<length data])"
    by (simp add: processFeatures_conv)
next
  show "\<forall>r \<in> set (processFeatures data).
         0 \<le> p_id r \<and> nat (p_id r) < length data
         \<and> \<not> skipped (data ! nat (p_id r))
         \<and> actCode (data ! nat (p_id r)) = Some (p_actCode r)
         \<and> BA (data ! nat (p_id r)) = Some (p_BA r)
         \<and> monthly (data ! nat (p_id r)) = p_monthly r
         \<and> parseAmount (amount (data ! nat (p_id r))) = p_amount r"
  proof
    fix r assume "r \<in> set (processFeatures data)"
    then obtain i where i: "i < length data"
      and r: "pass2_row (calculate_averages (fst (pass1 data))) (snd (pass1 data)) (i, data ! i) = Some r"
      using processFeatures_memD by blast
    from pass2_row_SomeD [OF r] i
    show "0 \<le> p_id r \<and> nat (p_id r) < length data
         \<and> \<not> skipped (data ! nat (p_id r))
         \<and> actCode (data ! nat (p_id r)) = Some (p_actCode r)
         \<and> BA (data ! nat (p_id r)) = Some (p_BA r)
         \<and> monthly (data ! nat (p_id r)) = p_monthly r
         \<and> parseAmount (amount (data ! nat (p_id r))) = p_amount r"
      by simp
  qed
qed

text \<open>In the sample the row at position 1 is skipped, and the ids are 0, 2, 3, 4.\<close>

theorem processFeatures_id_is_index_witness:
  "map p_id (processFeatures sample_rows) = [0, 2, 3, 4]
   \<and> hd (processFeatures sample_rows) \<in> set (processFeatures sample_rows)
   \<and> actCode (sample_rows ! 0) = Some (p_actCode (hd (processFeatures sample_rows)))"
  using processFeatures_id_is_index [of sample_rows]
  by (simp add: sample_rows_eval)

section \<open>Suspicion rule\<close>

lemma ba_greater_field: "ba_greater v k = field_greater (ba_or_zero v) k"
  by (auto simp: ba_greater_def ba_or_zero_def field_greater_def split: property.splits bavalue.splits)

text \<open>
  Claim C1. For every processed record, \<open>isSuspiciousCandidate\<close> holds exactly when
  \<open>deviationFromAvg > 3\<close> or (\<open>baTransactionCount > 100\<close> and \<open>deviationFromAvg > 2\<close>), both
  comparisons strict: a record with deviation exactly 3 is flagged only through the
  second clause, and a record with deviation exactly 2 is never flagged.
\<close>

theorem suspicion_rule:
  "\<forall>r \<in> set (processFeatures data).
     (isSuspiciousCandidate r \<longleftrightarrow>
        js_gt (deviationFromAvg r) (Fin 3)
        \<or> (field_greater (baTransactionCount r) 100 \<and> js_gt (deviationFromAvg r) (Fin 2)))
     \<and> (deviationFromAvg r = Fin 3 \<longrightarrow>
          (isSuspiciousCandidate r \<longleftrightarrow> field_greater (baTransactionCount r) 100))
     \<and> (deviationFromAvg r = Fin 2 \<longrightarrow> \<not> isSuspiciousCandidate r)"
proof
  fix r assume "r \<in> set (processFeatures data)"
  then obtain i where
    r: "pass2_row (calculate_averages (fst (pass1 data))) (snd (pass1 data)) (i, data ! i) = Some r"
    using processFeatures_memD by blast
  have rule: "isSuspiciousCandidate r \<longleftrightarrow>
        js_gt (deviationFromAvg r) (Fin 3)
        \<or> (field_greater (baTransactionCount r) 100 \<and> js_gt (deviationFromAvg r) (Fin 2))"
    using pass2_row_SomeD(8,9) [OF r] by (simp add: ba_greater_field)
  then show "(isSuspiciousCandidate r \<longleftrightarrow>
        js_gt (deviationFromAvg r) (Fin 3)
        \<or> (field_greater (baTransactionCount r) 100 \<and> js_gt (deviationFromAvg r) (Fin 2)))
     \<and> (deviationFromAvg r = Fin 3 \<longrightarrow>
          (isSuspiciousCandidate r \<longleftrightarrow> field_greater (baTransactionCount r) 100))
     \<and> (deviationFromAvg r = Fin 2 \<longrightarrow> \<not> isSuspiciousCandidate r)"
    by auto
qed

text \<open>
  In the threshold sample the records 0, 3 and 5 have deviation 3, 2 and 4 and belong to
  a business area of 9 transactions: only record 5 is flagged.
\<close>

theorem suspicion_rule_witness:
  "(\<exists>r \<in> set (processFeatures boundary_rows).
      deviationFromAvg r = Fin 3 \<and> \<not> field_greater (baTransactionCount r) 100
      \<and> \<not> isSuspiciousCandidate r)
   \<and> (\<exists>r \<in> set (processFeatures boundary_rows).
      deviationFromAvg r = Fin 2 \<and> \<not> isSuspiciousCandidate r)
   \<and> (\<exists>r \<in> set (processFeatures boundary_rows).
      js_gt (deviationFromAvg r) (Fin 3) \<and> isSuspiciousCandidate r)"
proof -
  from boundary_rows_eval
  have "(0, Count 9, Fin 3, False) \<in> set (map (\<lambda>r. (p_id r, baTransactionCount r, deviationFromAvg r, isSuspiciousCandidate r)) (processFeatures boundary_rows))"
    and "(3, Count 9, Fin 2, False) \<in> set (map (\<lambda>r. (p_id r, baTransactionCount r, deviationFromAvg r, isSuspiciousCandidate r)) (processFeatures boundary_rows))"
    and "(5, Count 9, Fin 4, True) \<in> set (map (\<lambda>r. (p_id r, baTransactionCount r, deviationFromAvg r, isSuspiciousCandidate r)) (processFeatures boundary_rows))"
    by simp_all
  then obtain r0 r3 r5 where
    r0: "r0 \<in> set (processFeatures boundary_rows)" "baTransactionCount r0 = Count 9"
        "deviationFromAvg r0 = Fin 3"
    and r3: "r3 \<in> set (processFeatures boundary_rows)" "deviationFromAvg r3 = Fin 2"
    and r5: "r5 \<in> set (processFeatures boundary_rows)" "deviationFromAvg r5 = Fin 4"
    by auto
  from suspicion_rule [of boundary_rows] r0 have n0: "\<not> isSuspiciousCandidate r0"
    by (simp add: field_greater_def)
  from suspicion_rule [of boundary_rows] r3 have n3: "\<not> isSuspiciousCandidate r3"
    by simp
  from suspicion_rule [of boundary_rows] r5 have y5: "isSuspiciousCandidate r5"
    by simp
  have "\<exists>r \<in> set (processFeatures boundary_rows).
      deviationFromAvg r = Fin 3 \<and> \<not> field_greater (baTransactionCount r) 100
      \<and> \<not> isSuspiciousCandidate r"
    using r0 n0 by (intro bexI [of _ r0]) (simp_all add: field_greater_def)
  moreover have "\<exists>r \<in> set (processFeatures boundary_rows).
      deviationFromAvg r = Fin 2 \<and> \<not> isSuspiciousCandidate r"
    using r3 n3 by (intro bexI [of _ r3]) simp_all
  moreover have "\<exists>r \<in> set (processFeatures boundary_rows).
      js_gt (deviationFromAvg r) (Fin 3) \<and> isSuspiciousCandidate r"
    using r5 y5 by (intro bexI [of _ r5]) simp_all
  ultimately show ?thesis by blast
qed

section \<open>Averages and deviation\<close>

lemma counts_positive_update:
  "counts_positive stats \<Longrightarrow> counts_positive (update_actCodeStats stats code amt)"
  by (auto simp: counts_positive_def update_actCodeStats_def split: property.splits)

lemma counts_positive_row:
  "counts_positive (fst st) \<Longrightarrow> counts_positive (fst (pass1_row st row))"
  by (auto simp: pass1_row_def counts_positive_update split: option.splits)

lemma counts_positive_foldl:
  "counts_positive (fst st) \<Longrightarrow> counts_positive (fst (foldl pass1_row st data))"
  by (induction data arbitrary: st) (simp_all add: counts_positive_row)

lemma counts_positive_pass1: "counts_positive (fst (pass1 data))"
  unfolding pass1_def by (rule counts_positive_foldl) (simp add: counts_positive_def)

lemma calculate_averages_SomeD:
  assumes "calculate_averages stats code = Some stat"
  shows "\<exists>s0. stats code = Some s0 \<and> totalAmount stat = totalAmount s0 \<and> count stat = count s0
           \<and> average stat = js_div (totalAmount s0) (Fin (of_nat (count s0)))"
  using assms by (auto simp: calculate_averages_def set_average_def)

lemma lookup_average_absent:
  "stats code = None \<Longrightarrow> lookup_average (calculate_averages stats) code = Fin 0"
  by (simp add: lookup_average_def get_property_def calculate_averages_def)

text \<open>
  Claim C3. After the averages are calculated, every entry of the aggregate table has a
  positive count and \<open>average = totalAmount / count\<close>. In the second pass the average
  looked up for an absent category is 0, and for a category of the table it is the average
  of its entry (0 in place of \<open>NaN\<close>, by \<open>|| 0\<close>); the deviation of a record is
  \<open>amount / average\<close> when the average looked up is not 0 and is 0 when it is 0. The divisors are therefore
  never zero: a positive count in the first division, a nonzero average in the second.
\<close>

theorem averages_and_deviation:
  "(\<forall>code stat. calculate_averages (fst (pass1 data)) code = Some stat \<longrightarrow>
       0 < count stat
       \<and> average stat = js_div (totalAmount stat) (Fin (of_nat (count stat))))
   \<and> (\<forall>code. fst (pass1 data) code = None \<longrightarrow>
         lookup_average (calculate_averages (fst (pass1 data))) code = Fin 0)
   \<and> (\<forall>code stat. calculate_averages (fst (pass1 data)) code = Some stat \<longrightarrow>
         lookup_average (calculate_averages (fst (pass1 data))) code
           = (if average stat = NaN then Fin 0 else average stat))
   \<and> (\<forall>r \<in> set (processFeatures data).
         actCodeAvgAmount r = lookup_average (calculate_averages (fst (pass1 data))) (p_actCode r)
         \<and> (actCodeAvgAmount r \<noteq> Fin 0 \<longrightarrow>
              deviationFromAvg r = js_div (p_amount r) (actCodeAvgAmount r))
         \<and> (actCodeAvgAmount r = Fin 0 \<longrightarrow> deviationFromAvg r = Fin 0))"
proof (intro conjI allI impI ballI)
  fix code stat
  assume a: "calculate_averages (fst (pass1 data)) code = Some stat"
  from calculate_averages_SomeD [OF a] obtain s0 where
    s0: "fst (pass1 data) code = Some s0" "totalAmount stat = totalAmount s0"
        "count stat = count s0"
        "average stat = js_div (totalAmount s0) (Fin (of_nat (count s0)))"
    by blast
  from counts_positive_pass1 [of data] s0(1) have "0 < count s0"
    by (simp add: counts_positive_def)
  with s0 show "0 < count stat" by simp
  from s0 show "average stat = js_div (totalAmount stat) (Fin (of_nat (count stat)))" by simp
next
  fix code assume "fst (pass1 data) code = None"
  then show "lookup_average (calculate_averages (fst (pass1 data))) code = Fin 0"
    by (rule lookup_average_absent)
next
  fix code stat
  assume "calculate_averages (fst (pass1 data)) code = Some stat"
  then show "lookup_average (calculate_averages (fst (pass1 data))) code
           = (if average stat = NaN then Fin 0 else average stat)"
    by (simp add: lookup_average_def get_property_def js_or_zero_def)
next
  fix r assume "r \<in> set (processFeatures data)"
  then obtain i where
    r: "pass2_row (calculate_averages (fst (pass1 data))) (snd (pass1 data)) (i, data ! i) = Some r"
    using processFeatures_memD by blast
  show "actCodeAvgAmount r = lookup_average (calculate_averages (fst (pass1 data))) (p_actCode r)"
    using pass2_row_SomeD(6) [OF r] .
  { assume "actCodeAvgAmount r \<noteq> Fin 0"
    then show "deviationFromAvg r = js_div (p_amount r) (actCodeAvgAmount r)"
      using pass2_row_SomeD(7) [OF r] by (simp add: deviation_def) }
  { assume "actCodeAvgAmount r = Fin 0"
    then show "deviationFromAvg r = Fin 0"
      using pass2_row_SomeD(7) [OF r] by (simp add: deviation_def) }
qed

text \<open>
  In the sample, category \<open>X\<close> has total 3 over 3 rows, category \<open>W\<close> has average 0, and
  category \<open>Q\<close> is absent.
\<close>

theorem averages_and_deviation_witness:
  "calculate_averages (fst (pass1 sample_rows)) ''X''
     = Some \<lparr>totalAmount = Fin 3, count = 3, average = Fin 1\<rparr>
   \<and> js_div (Fin 3) (Fin (of_nat 3)) = Fin 1
   \<and> fst (pass1 sample_rows) ''Q'' = None
   \<and> lookup_average (calculate_averages (fst (pass1 sample_rows))) ''Q'' = Fin 0
   \<and> map (\<lambda>r. (actCodeAvgAmount r, deviationFromAvg r)) (processFeatures sample_rows)
       = [(Fin 1, Fin 3), (Fin 1, Fin 0), (Fin 1, Fin 0), (Fin 0, Fin 0)]"
proof -
  have x: "calculate_averages (fst (pass1 sample_rows)) ''X''
     = Some \<lparr>totalAmount = Fin 3, count = 3, average = Fin 1\<rparr>"
    unfolding sample_rows_def by code_simp
  have q: "fst (pass1 sample_rows) ''Q'' = None"
    unfolding sample_rows_def by code_simp
  from averages_and_deviation [of sample_rows] q
  have l: "lookup_average (calculate_averages (fst (pass1 sample_rows))) ''Q'' = Fin 0"
    by blast
  from x q l show ?thesis
    by (simp add: sample_rows_eval)
qed

section \<open>Sorting with a numeric key\<close>

lemma js_gt_sub: "a \<noteq> NaN \<Longrightarrow> b \<noteq> NaN \<Longrightarrow> js_gt (js_sub b a) (Fin 0) = js_gt b a"
  by (cases a; cases b) (auto simp: js_sub_def)

lemma js_gt_asym: "js_gt a b \<Longrightarrow> \<not> js_gt b a"
  by (cases a; cases b) auto

lemma js_not_gt_trans:
  "b \<noteq> NaN \<Longrightarrow> \<not> js_gt b a \<Longrightarrow> \<not> js_gt c b \<Longrightarrow> \<not> js_gt c a"
  by (cases a; cases b; cases c) auto

lemma set_insert_by: "set (insert_by c x ys) = insert x (set ys)"
  by (induction ys) auto

lemma mset_insert_by: "mset (insert_by c x ys) = add_mset x (mset ys)"
  by (induction ys) auto

lemma mset_js_sort: "mset (js_sort c xs) = mset xs"
  by (induction xs) (simp_all add: js_sort_def mset_insert_by)

lemma set_js_sort: "set (js_sort c xs) = set xs"
  using mset_js_sort [of c xs] by (metis set_mset_mset)

lemma length_js_sort: "length (js_sort c xs) = length xs"
  using mset_js_sort [of c xs] by (metis size_mset)

lemma descending_insert_by:
  assumes "key x \<noteq> NaN" "\<forall>y \<in> set ys. key y \<noteq> NaN" "descending key ys"
  shows "descending key (insert_by (\<lambda>a b. js_sub (key b) (key a)) x ys)"
  using assms
proof (induction ys)
  case Nil
  then show ?case by (simp add: descending_def)
next
  case (Cons y ys)
  show ?case
  proof (cases "js_gt (key y) (key x)")
    case True
    from Cons have IH: "descending key (insert_by (\<lambda>a b. js_sub (key b) (key a)) x ys)"
      by (simp add: descending_def)
    from True have "\<not> js_gt (key x) (key y)" by (rule js_gt_asym)
    with Cons.prems True IH show ?thesis
      by (auto simp: descending_def js_gt_sub set_insert_by)
  next
    case False
    have "\<not> js_gt (key z) (key x)" if "z \<in> set ys" for z
    proof -
      from Cons.prems that have "\<not> js_gt (key z) (key y)" by (auto simp: descending_def)
      with False Cons.prems show ?thesis
        using js_not_gt_trans [of "key y" "key x" "key z"] by auto
    qed
    with Cons.prems False show ?thesis
      by (auto simp: descending_def js_gt_sub)
  qed
qed

lemma descending_js_sort:
  assumes "\<forall>y \<in> set xs. key y \<noteq> NaN"
  shows "descending key (js_sort (\<lambda>a b. js_sub (key b) (key a)) xs)"
  using assms
proof (induction xs)
  case Nil
  then show ?case by (simp add: js_sort_def descending_def)
next
  case (Cons x xs)
  then have "descending key (js_sort (\<lambda>a b. js_sub (key b) (key a)) xs)" by simp
  with Cons.prems have "descending key (insert_by (\<lambda>a b. js_sub (key b) (key a)) x (js_sort (\<lambda>a b. js_sub (key b) (key a)) xs))"
    by (auto intro!: descending_insert_by simp: set_js_sort)
  then show ?case by (simp add: js_sort_def)
qed

lemma descending_take: "descending key xs \<Longrightarrow> descending key (take n xs)"
  unfolding descending_def by (metis append_take_drop_id sorted_wrt_append)

section \<open>Candidate selection\<close>

lemma by_deviation_conv: "by_deviation = (\<lambda>a b. js_sub (deviationFromAvg b) (deviationFromAvg a))"
  by (intro ext) (simp add: by_deviation_def)

lemma processFeatures_candidate_not_NaN:
  assumes "t \<in> set (processFeatures data)" "isSuspiciousCandidate t"
  shows "deviationFromAvg t \<noteq> NaN"
proof -
  from assms(1) obtain i where
    r: "pass2_row (calculate_averages (fst (pass1 data))) (snd (pass1 data)) (i, data ! i) = Some t"
    using processFeatures_memD by blast
  from pass2_row_SomeD(9) [OF r] assms(2) show ?thesis by auto
qed

text \<open>
  Claim C4. The selector returns \<open>min(30, number of candidates)\<close> records, hence never more
  than 30; every returned record is a flagged record of the input; the result is the
  first 30 elements of a rearrangement of the flagged records, and that rearrangement is
  in descending order of \<open>deviationFromAvg\<close>. Descending order presupposes comparable
  keys: it is stated for sequences whose flagged records have a deviation other than
  \<open>NaN\<close>, which holds of every sequence the feature engine produces (a flagged record has
  a deviation greater than 2), as the last conjunct records.
\<close>

theorem select_candidates_top30:
  "length (select_candidates ts) = min 30 (length (filter isSuspiciousCandidate ts))
   \<and> length (select_candidates ts) \<le> 30
   \<and> (\<forall>t \<in> set (select_candidates ts). t \<in> set ts \<and> isSuspiciousCandidate t)
   \<and> select_candidates ts = take 30 (js_sort by_deviation (filter isSuspiciousCandidate ts))
   \<and> mset (js_sort by_deviation (filter isSuspiciousCandidate ts))
       = filter_mset isSuspiciousCandidate (mset ts)
   \<and> ((\<forall>t \<in> set ts. isSuspiciousCandidate t \<longrightarrow> deviationFromAvg t \<noteq> NaN) \<longrightarrow>
        descending deviationFromAvg (js_sort by_deviation (filter isSuspiciousCandidate ts))
        \<and> descending deviationFromAvg (select_candidates ts))
   \<and> descending deviationFromAvg (select_candidates (processFeatures data))"
proof -
  let ?c = "filter isSuspiciousCandidate ts"
  have 1: "length (select_candidates ts) = min 30 (length ?c)"
    by (simp add: select_candidates_def length_js_sort min.commute)
  then have 2: "length (select_candidates ts) \<le> 30" by simp
  have 3: "\<forall>t \<in> set (select_candidates ts). t \<in> set ts \<and> isSuspiciousCandidate t"
  proof
    fix t assume "t \<in> set (select_candidates ts)"
    then have "t \<in> set (js_sort by_deviation ?c)"
      unfolding select_candidates_def by (rule in_set_takeD)
    then show "t \<in> set ts \<and> isSuspiciousCandidate t" by (simp add: set_js_sort)
  qed
  have 4: "select_candidates ts = take 30 (js_sort by_deviation ?c)"
    by (simp add: select_candidates_def)
  have 5: "mset (js_sort by_deviation ?c) = filter_mset isSuspiciousCandidate (mset ts)"
    by (simp add: mset_js_sort)
  have sorted: "descending deviationFromAvg (js_sort by_deviation (filter isSuspiciousCandidate us))
        \<and> descending deviationFromAvg (select_candidates us)"
    if "\<forall>t \<in> set us. isSuspiciousCandidate t \<longrightarrow> deviationFromAvg t \<noteq> NaN" for us
  proof -
    from that have "\<forall>y \<in> set (filter isSuspiciousCandidate us). deviationFromAvg y \<noteq> NaN" by simp
    then have "descending deviationFromAvg (js_sort by_deviation (filter isSuspiciousCandidate us))"
      unfolding by_deviation_conv by (rule descending_js_sort)
    then show ?thesis by (simp add: select_candidates_def descending_take)
  qed
  have 7: "descending deviationFromAvg (select_candidates (processFeatures data))"
    using sorted [of "processFeatures data"] processFeatures_candidate_not_NaN by blast
  from 1 2 3 4 5 sorted [of ts] 7 show ?thesis by blast
qed

lemma many_candidates_eval:
  "map p_id (select_candidates many_candidates) = map int (rev [10..<40])"
  unfolding many_candidates_def candidate_def by code_simp

text \<open>With 36 candidates the 30 largest deviations are returned, largest first.\<close>

theorem select_candidates_top30_witness:
  "length (filter isSuspiciousCandidate many_candidates) = 36
   \<and> length (select_candidates many_candidates) = 30
   \<and> map p_id (select_candidates many_candidates) = map int (rev [10..<40])
   \<and> descending deviationFromAvg (select_candidates many_candidates)"
proof -
  have h: "\<forall>t \<in> set many_candidates. isSuspiciousCandidate t \<longrightarrow> deviationFromAvg t \<noteq> NaN"
    by (simp add: many_candidates_def candidate_def)
  have n: "length (filter isSuspiciousCandidate many_candidates) = 36"
    unfolding many_candidates_def candidate_def by code_simp
  note top30 = select_candidates_top30 [of many_candidates "[]"]
  from top30 have "length (select_candidates many_candidates)
      = min 30 (length (filter isSuspiciousCandidate many_candidates))"
    by (rule conjunct1)
  with n have l: "length (select_candidates many_candidates) = 30"
    by simp
  from top30 h have d: "descending deviationFromAvg (select_candidates many_candidates)"
    by blast
  from n l many_candidates_eval d show ?thesis
    by (intro conjI)
qed


section \<open>Scorer stage\<close>

lemma select_candidates_Nil_iff:
  "select_candidates ts = [] \<longleftrightarrow> (\<forall>t \<in> set ts. \<not> isSuspiciousCandidate t)"
proof -
  have "select_candidates ts = [] \<longleftrightarrow> length (filter isSuspiciousCandidate ts) = 0"
    by (simp add: select_candidates_def length_js_sort min_def flip: length_0_conv)
  then show ?thesis by (simp add: filter_empty_conv)
qed

lemma request_sent_when_candidates:
  assumes "\<exists>t \<in> set ts. isSuspiciousCandidate t" "\<not> falsy api_key"
  shows "snd (analyzeFraudWithGemini api_key generateContent ts)
           = [map summary (select_candidates ts)]"
  using assms select_candidates_Nil_iff [of ts]
  by (auto simp: analyzeFraudWithGemini_def Let_def split: reply.splits)

text \<open>
  Claim C7. When no record is flagged, the scorer stage returns the empty sequence as a
  normal result (\<open>Inr\<close>, not a thrown error) and sends no request, whatever the
  credential and whatever the service would have answered.
\<close>

theorem no_candidates_no_call:
  "(\<forall>t \<in> set ts. \<not> isSuspiciousCandidate t) \<longrightarrow>
     analyzeFraudWithGemini api_key generateContent ts = (Inr [], [])"
  using select_candidates_Nil_iff [of ts] by (simp add: analyzeFraudWithGemini_def)


text \<open>One unflagged record, a service that would reject every call.\<close>

theorem no_candidates_no_call_witness:
  "\<not> isSuspiciousCandidate (candidate 0 1 False)
   \<and> analyzeFraudWithGemini (Some ''key'') (\<lambda>request. Rejected) [candidate 0 1 False]
       = (Inr [], [])"
  using no_candidates_no_call [of "[candidate 0 1 False]" "Some ''key''" "\<lambda>request. Rejected"]
  by (simp add: candidate_def)

text \<open>
  Claim C9. The empty-candidate check comes first: without a credential (\<open>undefined\<close> or
  the empty string) and without candidates the stage returns the empty sequence and
  raises nothing. The missing-credential error is raised exactly when the credential is
  missing and at least one record is flagged, and then no request has been sent.
\<close>

theorem empty_check_before_credential_check:
  "((\<forall>t \<in> set ts. \<not> isSuspiciousCandidate t) \<longrightarrow>
      analyzeFraudWithGemini None generateContent ts = (Inr [], [])
      \<and> analyzeFraudWithGemini (Some []) generateContent ts = (Inr [], []))
   \<and> (fst (analyzeFraudWithGemini api_key generateContent ts) = Inl ApiKeyNotFound
        \<longleftrightarrow> falsy api_key \<and> (\<exists>t \<in> set ts. isSuspiciousCandidate t))
   \<and> (falsy api_key \<and> (\<exists>t \<in> set ts. isSuspiciousCandidate t) \<longrightarrow>
        analyzeFraudWithGemini api_key generateContent ts = (Inl ApiKeyNotFound, []))"
  using select_candidates_Nil_iff [of ts]
  by (auto simp: analyzeFraudWithGemini_def Let_def split: reply.splits)

text \<open>No credential: an unflagged record alone, then a flagged record alone.\<close>

theorem empty_check_before_credential_check_witness:
  "\<not> isSuspiciousCandidate (candidate 0 1 False)
   \<and> analyzeFraudWithGemini None (\<lambda>request. NoText) [candidate 0 1 False] = (Inr [], [])
   \<and> falsy None \<and> isSuspiciousCandidate (candidate 1 5 True)
   \<and> analyzeFraudWithGemini None (\<lambda>request. NoText) [candidate 1 5 True]
       = (Inl ApiKeyNotFound, [])"
  using empty_check_before_credential_check
          [of "[candidate 0 1 False]" "\<lambda>request. NoText" None]
        empty_check_before_credential_check
          [of "[candidate 1 5 True]" "\<lambda>request. NoText" None]
  by (simp add: candidate_def falsy_def)

section \<open>Result merging\<close>

lemma topRiskyTransactions_fst:
  "fst (topRiskyTransactions s)
     = List.map_filter (merge_result (processedData s)) (js_sort by_fraudScore (analysisResults s))"
  by (simp add: topRiskyTransactions_def Let_def js_sort_def map_filter_simps)

lemma find_Some_member: "List.find P xs = Some x \<Longrightarrow> x \<in> set xs \<and> P x"
  by (induction xs) (auto split: if_splits)

lemma merge_result_None_iff: "merge_result processed res = None \<longleftrightarrow> \<not> matched processed res"
proof (cases "find (\<lambda>p. p_id p = r_id res) processed")
  case None
  then have "merge_result processed res = None"
    by (simp add: merge_result_def)
  moreover from None have "\<not> matched processed res"
    by (auto simp: find_None_iff matched_def)
  ultimately show ?thesis by simp
next
  case (Some p)
  then have "p \<in> set processed" "p_id p = r_id res"
    by (auto dest: find_Some_member)
  then have "matched processed res"
    unfolding matched_def by (metis imageI)
  with Some show ?thesis by (simp add: merge_result_def)
qed

lemma merge_result_Some_iff:
  "(\<exists>f. merge_result processed res = Some f) \<longleftrightarrow> matched processed res"
  using merge_result_None_iff [of processed res] by auto

lemma merge_result_SomeD:
  assumes "merge_result processed res = Some f"
  shows "\<exists>p \<in> set processed. p_id p = r_id res \<and> f = merge_record p res"
  using assms
  by (auto simp: merge_result_def find_Some_iff split: option.splits)

lemma merge_result_fields:
  assumes "matched processed res"
  shows "p_id (the (merge_result processed res)) = r_id res"
    and "fraudScore (the (merge_result processed res)) = r_fraudScore res"
proof -
  from assms obtain f where f: "merge_result processed res = Some f"
    using merge_result_Some_iff by blast
  from merge_result_SomeD [OF f] f
  show "p_id (the (merge_result processed res)) = r_id res"
    and "fraudScore (the (merge_result processed res)) = r_fraudScore res"
    by (auto simp: merge_record_def)
qed

lemma map_filter_merge_conv:
  "List.map_filter (merge_result processed) rs
     = map (\<lambda>res. the (merge_result processed res)) (filter (matched processed) rs)"
  by (simp add: map_filter_def merge_result_Some_iff o_def)

lemma merged_ids:
  "map p_id (List.map_filter (merge_result processed) rs)
     = map r_id (filter (matched processed) rs)"
  by (simp add: map_filter_merge_conv merge_result_fields(1))

lemma merged_scores:
  "map fraudScore (List.map_filter (merge_result processed) rs)
     = map r_fraudScore (filter (matched processed) rs)"
  by (simp add: map_filter_merge_conv merge_result_fields(2))

lemma count_list_matched:
  "count_list (map r_id (filter (matched processed) rs)) i
     = (if i \<in> p_id ` set processed then count_list (map r_id rs) i else 0)"
  by (induction rs) (auto simp: matched_def)

lemma count_list_insert_by:
  "count_list (map f (insert_by c a bs)) i = count_list (map f (a # bs)) i"
  by (induction bs) auto

lemma count_list_js_sort: "count_list (map f (js_sort c as)) i = count_list (map f as) i"
  by (induction as) (simp_all add: js_sort_def count_list_insert_by)

lemma by_fraudScore_conv:
  "by_fraudScore
     = (\<lambda>a b. js_sub (score_number (r_fraudScore b)) (score_number (r_fraudScore a)))"
  by (intro ext) (simp add: by_fraudScore_def)

lemma sorted_by_fraudScore:
  assumes "\<forall>res \<in> set rs. r_fraudScore res \<noteq> None"
  shows "descending (\<lambda>res. score_number (r_fraudScore res)) (js_sort by_fraudScore rs)"
proof -
  from assms have "\<forall>res \<in> set rs. score_number (r_fraudScore res) \<noteq> NaN"
    by (auto simp: score_number_def)
  then show ?thesis
    unfolding by_fraudScore_conv by (rule descending_js_sort)
qed

lemma descending_filter: "descending key xs \<Longrightarrow> descending key (filter P xs)"
  unfolding descending_def by (rule sorted_wrt_filter)

lemma descending_map: "descending key (map g xs) = descending (\<lambda>a. key (g a)) xs"
  by (simp add: descending_def sorted_wrt_map)

lemma distinct_ids_js_sort:
  "distinct (map r_id (js_sort c rs)) = distinct (map r_id rs)"
proof -
  have "mset (map r_id (js_sort c rs)) = mset (map r_id rs)"
    by (simp add: mset_js_sort)
  then show ?thesis by (rule mset_eq_imp_distinct_iff)
qed

lemma merge_state_eval:
  "map (\<lambda>f. (p_id f, fraudScore f)) (fst (topRiskyTransactions merge_state))
     = [(7, Some (9 / 10)), (3, Some (1 / 5))]"
  unfolding merge_state_def candidate_def score_def by code_simp

lemma duplicate_state_eval:
  "map (\<lambda>f. (p_id f, fraudScore f)) (fst (topRiskyTransactions duplicate_state))
     = [(0, Some (9 / 10)), (0, Some (1 / 2))]"
  unfolding duplicate_state_def candidate_def score_def by code_simp

text \<open>
  A score result without \<open>fraudScore\<close> makes every comparison with it \<open>NaN\<close>: in the model
  nothing moves, and 1/5 stays ahead of 9/10.
\<close>

lemma unscored_state_eval:
  "map (\<lambda>f. (p_id f, fraudScore f)) (fst (topRiskyTransactions unscored_state))
     = [(3, Some (1 / 5)), (7, None), (5, Some (9 / 10))]"
  unfolding unscored_state_def candidate_def score_def unscored_def by code_simp

text \<open>
  Claim C5, as stated, fails when the score results repeat an id: the claim promises one
  final record per id present in both inputs, and here id 0, present in both, has two.
\<close>

theorem merge_duplicate_ids_counterexample:
  "0 \<in> p_id ` set (processedData duplicate_state)
   \<and> 0 \<in> r_id ` set (analysisResults duplicate_state)
   \<and> count_list (map p_id (fst (topRiskyTransactions duplicate_state))) 0 = 2"
proof -
  have "map p_id (fst (topRiskyTransactions duplicate_state)) = [0, 0]"
    using arg_cong [OF duplicate_state_eval, of "map fst"] by (simp add: o_def)
  then show ?thesis
    by (simp add: duplicate_state_def candidate_def score_def)
qed

text \<open>
  Claim C5, amended. The merger outputs one final record per score result whose id
  occurs among the processed records: an id of the processed records occurs in the
  output as often as among the score results, and any other id does not occur. So the ids
  of the output are those present in both inputs, and when the ids of the score results
  are pairwise distinct each of them has exactly one final record. When every score
  result carries a \<open>fraudScore\<close>, the output is in descending order of \<open>fraudScore\<close>
  (nothing is stated about the order otherwise). The output is no longer than the
  sequence of score results, and each final record merges a score result with a
  processed record of the same id.
\<close>

theorem merge_by_id:
  "(\<forall>i. count_list (map p_id (fst (topRiskyTransactions s))) i
          = (if i \<in> p_id ` set (processedData s)
             then count_list (map r_id (analysisResults s)) i else 0))
   \<and> set (map p_id (fst (topRiskyTransactions s)))
        = p_id ` set (processedData s) \<inter> r_id ` set (analysisResults s)
   \<and> (distinct (map r_id (analysisResults s)) \<longrightarrow>
         distinct (map p_id (fst (topRiskyTransactions s))))
   \<and> ((\<forall>res \<in> set (analysisResults s). r_fraudScore res \<noteq> None) \<longrightarrow>
         descending (\<lambda>f. score_number (fraudScore f)) (fst (topRiskyTransactions s)))
   \<and> length (fst (topRiskyTransactions s)) \<le> length (analysisResults s)
   \<and> (\<forall>f \<in> set (fst (topRiskyTransactions s)).
         \<exists>res \<in> set (analysisResults s). \<exists>p \<in> set (processedData s).
            p_id p = r_id res \<and> f = merge_record p res)"
proof -
  let ?proc = "processedData s" and ?res = "analysisResults s"
  let ?sorted = "js_sort by_fraudScore ?res"
  let ?out = "fst (topRiskyTransactions s)"
  have ids: "map p_id ?out = map r_id (filter (matched ?proc) ?sorted)"
    by (simp add: topRiskyTransactions_fst merged_ids)
  have 1: "\<forall>i. count_list (map p_id ?out) i
          = (if i \<in> p_id ` set ?proc then count_list (map r_id ?res) i else 0)"
    by (simp add: ids count_list_matched count_list_js_sort)
  have "set (map p_id ?out) = r_id ` {r \<in> set ?sorted. matched ?proc r}"
    by (simp add: ids)
  also have "\<dots> = p_id ` set ?proc \<inter> r_id ` set ?res"
    by (force simp: set_js_sort matched_def)
  finally have 2: "set (map p_id ?out) = p_id ` set ?proc \<inter> r_id ` set ?res" .
  have 3: "distinct (map r_id ?res) \<longrightarrow> distinct (map p_id ?out)"
    by (simp add: ids distinct_map_filter distinct_ids_js_sort)
  have 4: "(\<forall>res \<in> set ?res. r_fraudScore res \<noteq> None) \<longrightarrow>
         descending (\<lambda>f. score_number (fraudScore f)) ?out"
  proof
    assume "\<forall>res \<in> set ?res. r_fraudScore res \<noteq> None"
    then have "descending (\<lambda>res. score_number (r_fraudScore res)) ?sorted"
      by (rule sorted_by_fraudScore)
    then have "descending (\<lambda>res. score_number (r_fraudScore res)) (filter (matched ?proc) ?sorted)"
      by (rule descending_filter)
    then have "descending score_number (map r_fraudScore (filter (matched ?proc) ?sorted))"
      by (simp add: descending_map)
    then have "descending score_number (map fraudScore ?out)"
      by (simp add: topRiskyTransactions_fst merged_scores)
    then show "descending (\<lambda>f. score_number (fraudScore f)) ?out"
      by (simp add: descending_map)
  qed
  have "length ?out = length (map p_id ?out)" by simp
  also have "\<dots> \<le> length ?sorted" unfolding ids by simp
  finally have 5: "length ?out \<le> length ?res" by (simp add: length_js_sort)
  have 6: "\<forall>f \<in> set ?out. \<exists>res \<in> set ?res. \<exists>p \<in> set ?proc.
            p_id p = r_id res \<and> f = merge_record p res"
  proof
    fix f assume "f \<in> set ?out"
    then obtain res where res: "res \<in> set ?sorted" "matched ?proc res"
        "f = the (merge_result ?proc res)"
      by (auto simp: topRiskyTransactions_fst map_filter_merge_conv)
    from res(2) obtain g where "merge_result ?proc res = Some g"
      using merge_result_Some_iff by blast
    with res have "res \<in> set ?sorted" "merge_result ?proc res = Some f"
      by simp_all
    then show "\<exists>res \<in> set ?res. \<exists>p \<in> set ?proc. p_id p = r_id res \<and> f = merge_record p res"
      using merge_result_SomeD [of ?proc res f] by (auto simp: set_js_sort)
  qed
  from 1 2 3 4 5 6 show ?thesis by (intro conjI)
qed

text \<open>
  Ten processed records, score results for the ids 3, 7 and 12: two final records, the
  higher score first.
\<close>

theorem merge_by_id_witness:
  "distinct (map r_id (analysisResults merge_state))
   \<and> map p_id (fst (topRiskyTransactions merge_state)) = [7, 3]
   \<and> distinct (map p_id (fst (topRiskyTransactions merge_state)))
   \<and> map r_fraudScore (analysisResults merge_state) = [Some (1 / 5), Some (9 / 10), Some (1 / 2)]
   \<and> descending (\<lambda>f. score_number (fraudScore f)) (fst (topRiskyTransactions merge_state))
   \<and> hd (fst (topRiskyTransactions merge_state)) \<in> set (fst (topRiskyTransactions merge_state))"
proof -
  have d: "distinct (map r_id (analysisResults merge_state))"
    by (simp add: merge_state_def score_def)
  have sc: "map r_fraudScore (analysisResults merge_state) = [Some (1 / 5), Some (9 / 10), Some (1 / 2)]"
    by (simp add: merge_state_def score_def)
  have all: "\<forall>res \<in> set (analysisResults merge_state). r_fraudScore res \<noteq> None"
    by (simp add: merge_state_def score_def del: not_None_eq)
  from merge_by_id [of merge_state] all
  have ds: "descending (\<lambda>f. score_number (fraudScore f)) (fst (topRiskyTransactions merge_state))"
    by blast
  have ids: "map p_id (fst (topRiskyTransactions merge_state)) = [7, 3]"
    using arg_cong [OF merge_state_eval, of "map fst"] by (simp add: o_def)
  then have "fst (topRiskyTransactions merge_state) \<noteq> []" by auto
  then have h: "hd (fst (topRiskyTransactions merge_state)) \<in> set (fst (topRiskyTransactions merge_state))"
    by simp
  from merge_by_id [of merge_state] d
  have "distinct (map p_id (fst (topRiskyTransactions merge_state)))" by blast
  with d ids sc ds h show ?thesis by (intro conjI)
qed

section \<open>What the derived computations leave behind\<close>

lemma topRiskyTransactions_state:
  "processedData (snd (topRiskyTransactions s)) = processedData s
   \<and> analysisResults (snd (topRiskyTransactions s)) = js_sort by_fraudScore (analysisResults s)
   \<and> mset (analysisResults (snd (topRiskyTransactions s))) = mset (analysisResults s)"
proof (cases "analysisResults s = []")
  case True
  then show ?thesis by (simp add: topRiskyTransactions_def js_sort_def)
next
  case False
  then show ?thesis by (simp add: topRiskyTransactions_def Let_def mset_js_sort)
qed

lemma scatterData_state:
  "analysisResults (snd (scatterData s)) = analysisResults s
   \<and> processedData (snd (scatterData s)) = js_sort by_amount (processedData s)
   \<and> mset (processedData (snd (scatterData s))) = mset (processedData s)"
  by (simp add: scatterData_def Let_def mset_js_sort)

text \<open>
  Claim C8 does not hold of the code. \<open>sort\<close> works in place, and both computations call
  it on the array held in the state: after the merge the score results of the state are
  in descending order of score, and after the sampling the processed records of the state
  are in descending order of amount. (The two lemmas above say what is kept: the other
  array, and the elements of the sorted one.)
\<close>

theorem sort_in_place_reorders_state:
  "map r_id (analysisResults merge_state) = [3, 7, 12]
   \<and> map r_id (analysisResults (snd (topRiskyTransactions merge_state))) = [7, 12, 3]
   \<and> map p_id (processedData merge_state) = [0, 1, 2, 3, 4, 5, 6, 7, 8, 9]
   \<and> map p_id (processedData (snd (scatterData merge_state))) = [9, 8, 7, 6, 5, 4, 3, 2, 1, 0]"
proof -
  have 1: "map r_id (analysisResults merge_state) = [3, 7, 12]"
    unfolding merge_state_def candidate_def score_def by code_simp
  have 2: "map r_id (analysisResults (snd (topRiskyTransactions merge_state))) = [7, 12, 3]"
    unfolding merge_state_def candidate_def score_def by code_simp
  have 3: "map p_id (processedData merge_state) = [0, 1, 2, 3, 4, 5, 6, 7, 8, 9]"
    unfolding merge_state_def candidate_def score_def by code_simp
  have 4: "map p_id (processedData (snd (scatterData merge_state))) = [9, 8, 7, 6, 5, 4, 3, 2, 1, 0]"
    unfolding merge_state_def candidate_def score_def by code_simp
  from 1 2 3 4 show ?thesis by (intro conjI)
qed

section \<open>Rows and aggregate tables\<close>

lemma update_actCodeStats_dom:
  "k \<in> dom stats \<Longrightarrow> k \<in> dom (update_actCodeStats stats code amt)"
  by (auto simp: update_actCodeStats_def split: property.splits)

lemma update_actCodeStats_adds:
  "code \<notin> set object_prototype_names \<Longrightarrow> code \<in> dom (update_actCodeStats stats code amt)"
  by (auto simp: update_actCodeStats_def get_property_def split: property.splits option.splits)

lemma update_baStats_dom:
  "k \<in> dom stats \<Longrightarrow> k \<in> dom (update_baStats stats ba)"
  by (auto simp: update_baStats_def split: property.splits bavalue.splits)

lemma update_baStats_adds:
  "ba \<notin> set object_prototype_names \<Longrightarrow> ba \<in> dom (update_baStats stats ba)"
  by (auto simp: update_baStats_def get_property_def split: property.splits option.splits bavalue.splits)

lemma update_baStats_own_counts:
  "own_counts stats \<Longrightarrow> own_counts (update_baStats stats ba)"
  unfolding own_counts_def update_baStats_def get_property_def
  by (auto split: property.splits option.splits bavalue.splits if_splits)

lemma pass1_row_dom:
  "k \<in> dom (fst st) \<Longrightarrow> k \<in> dom (fst (pass1_row st row))"
  "k \<in> dom (snd st) \<Longrightarrow> k \<in> dom (snd (pass1_row st row))"
  by (auto simp: pass1_row_def update_actCodeStats_dom update_baStats_dom
      split: option.splits)

lemma pass1_row_adds:
  assumes "\<not> skipped row"
  shows "\<And>code. actCode row = Some code \<Longrightarrow> code \<notin> set object_prototype_names
           \<Longrightarrow> code \<in> dom (fst (pass1_row st row))"
    and "\<And>ba. BA row = Some ba \<Longrightarrow> ba \<notin> set object_prototype_names
           \<Longrightarrow> ba \<in> dom (snd (pass1_row st row))"
  using assms
  by (auto simp: pass1_row_def skipped_def falsy_def update_actCodeStats_adds update_baStats_adds
      split: option.splits)

lemma pass1_row_own_counts: "own_counts (snd st) \<Longrightarrow> own_counts (snd (pass1_row st row))"
  by (auto simp: pass1_row_def update_baStats_own_counts split: option.splits)

lemma foldl_pass1_dom:
  "k \<in> dom (fst st) \<Longrightarrow> k \<in> dom (fst (foldl pass1_row st data))"
  "k \<in> dom (snd st) \<Longrightarrow> k \<in> dom (snd (foldl pass1_row st data))"
  by (induction data arbitrary: st) (simp_all add: pass1_row_dom)

lemma foldl_pass1_own_counts:
  "own_counts (snd st) \<Longrightarrow> own_counts (snd (foldl pass1_row st data))"
  by (induction data arbitrary: st) (simp_all add: pass1_row_own_counts)

lemma foldl_pass1_adds_code:
  assumes "row \<in> set data" "\<not> skipped row" "actCode row = Some code"
    "code \<notin> set object_prototype_names"
  shows "code \<in> dom (fst (foldl pass1_row st data))"
  using assms(1)
proof (induction data arbitrary: st)
  case Nil
  then show ?case by simp
next
  case (Cons a data)
  show ?case
  proof (cases "row = a")
    case True
    with assms(2-4) have "code \<in> dom (fst (pass1_row st a))"
      using pass1_row_adds(1) by blast
    then show ?thesis by (simp add: foldl_pass1_dom(1))
  next
    case False
    with Cons show ?thesis by (simp)
  qed
qed

lemma foldl_pass1_adds_ba:
  assumes "row \<in> set data" "\<not> skipped row" "BA row = Some ba"
    "ba \<notin> set object_prototype_names"
  shows "ba \<in> dom (snd (foldl pass1_row st data))"
  using assms(1)
proof (induction data arbitrary: st)
  case Nil
  then show ?case by simp
next
  case (Cons a data)
  show ?case
  proof (cases "row = a")
    case True
    with assms(2-4) have "ba \<in> dom (snd (pass1_row st a))"
      using pass1_row_adds(2) by blast
    then show ?thesis by (simp add: foldl_pass1_dom(2))
  next
    case False
    with Cons show ?thesis by (simp)
  qed
qed

lemma own_names_are_aggregated:
  assumes "r \<in> set (processFeatures data)"
  shows "p_actCode r \<notin> set object_prototype_names \<Longrightarrow>
           \<exists>stat. fst (pass1 data) (p_actCode r) = Some stat \<and> 0 < count stat"
    and "p_BA r \<notin> set object_prototype_names \<Longrightarrow>
           \<exists>n. snd (pass1 data) (p_BA r) = Some (Count n) \<and> 0 < n
               \<and> baTransactionCount r = Count n"
proof -
  from assms obtain i where i: "i < length data"
    and r: "pass2_row (calculate_averages (fst (pass1 data))) (snd (pass1 data)) (i, data ! i) = Some r"
    using processFeatures_memD by blast
  note f = pass2_row_SomeD [OF r]
  from i have mem: "data ! i \<in> set data" by simp
  { assume "p_actCode r \<notin> set object_prototype_names"
    with foldl_pass1_adds_code [OF mem f(10) f(2)]
    have "p_actCode r \<in> dom (fst (pass1 data))" by (simp add: pass1_def)
    then obtain stat where "fst (pass1 data) (p_actCode r) = Some stat" by auto
    with counts_positive_pass1 [of data]
    show "\<exists>stat. fst (pass1 data) (p_actCode r) = Some stat \<and> 0 < count stat"
      by (auto simp: counts_positive_def) }
  { assume own: "p_BA r \<notin> set object_prototype_names"
    with foldl_pass1_adds_ba [OF mem f(10) f(3)]
    have "p_BA r \<in> dom (snd (pass1 data))" by (simp add: pass1_def)
    then obtain v where v: "snd (pass1 data) (p_BA r) = Some v" by auto
    have "own_counts (snd (pass1 data))"
      unfolding pass1_def by (rule foldl_pass1_own_counts) (simp add: own_counts_def)
    with v own obtain n where n: "v = Count n" "0 < n"
      unfolding own_counts_def by blast
    with v f(8) have "baTransactionCount r = Count n"
      by (simp add: get_property_def ba_or_zero_def)
    with v n show "\<exists>n. snd (pass1 data) (p_BA r) = Some (Count n) \<and> 0 < n
               \<and> baTransactionCount r = Count n"
      by simp }
qed


text \<open>
  Claim C10 does not hold of the code for names that every object inherits. The row with
  activity code \<open>constructor\<close> survives the second pass although the aggregate table has
  no entry for it, and its average is the fallback 0; the row with business area
  \<open>toString\<close> survives with a frequency that is not a number. (For every other name the
  lemma above gives what the claim says.)
\<close>

theorem inherited_name_takes_fallback:
  "map (\<lambda>r. (p_id r, p_BA r, p_actCode r)) (processFeatures inherited_rows)
     = [(0, ''A'', ''constructor''), (1, ''toString'', ''X'')]
   \<and> fst (pass1 inherited_rows) ''constructor'' = None
   \<and> snd (pass1 inherited_rows) ''toString'' = Some NonNumber
   \<and> map (\<lambda>r. (actCodeAvgAmount r, baTransactionCount r)) (processFeatures inherited_rows)
       = [(Fin 0, Count 1), (Fin 5, NonNumber)]"
proof -
  have 1: "map (\<lambda>r. (p_id r, p_BA r, p_actCode r)) (processFeatures inherited_rows)
     = [(0, ''A'', ''constructor''), (1, ''toString'', ''X'')]"
    unfolding inherited_rows_def raw_row_def by code_simp
  have 2: "fst (pass1 inherited_rows) ''constructor'' = None"
    unfolding inherited_rows_def raw_row_def by code_simp
  have 3: "snd (pass1 inherited_rows) ''toString'' = Some NonNumber"
    unfolding inherited_rows_def raw_row_def by code_simp
  have 4: "map (\<lambda>r. (actCodeAvgAmount r, baTransactionCount r)) (processFeatures inherited_rows)
       = [(Fin 0, Count 1), (Fin 5, NonNumber)]"
    unfolding inherited_rows_def raw_row_def by code_simp
  from 1 2 3 4 show ?thesis by (intro conjI)
qed


end
